theory Spec2Isabelle
  imports Main "HOL-Library.Word"
begin

section \<open>Values shared by both packages\<close>

text \<open>
  Go strings and byte slices are byte sequences: both are \<open>string\<close> (a \<open>char list\<close>,
  one \<open>char\<close> per byte).

  Go has two failure channels. An \<open>error\<close> is a value a function returns; a panic unwinds
  the goroutine. The datatype \<open>error\<close> lists the error values the two source files create
  or can receive, compared by identity as Go's \<open>==\<close> on errors does: \<open>Other m\<close> is any
  further error value of a store, with message \<open>m\<close>, and is a different value from
  \<open>ErrNotFound\<close> even when \<open>m\<close> is \<open>NOT_FOUND\<close>.
\<close>

type_synonym bytes = string

datatype error =
    EOF
  | ErrUnexpectedEOF
  | errInvalidEOL
  | ErrCloseConnection
  | ErrSyntax
  | ErrRange
  | ErrNotFound
  | ErrNotStored
  | ErrExists
  | Other string

datatype panic =
    SliceBoundsOutOfRange
  | MakesliceLenOutOfRange

text \<open>
  The result of a call: \<open>Ok v\<close> is a return with a nil error, \<open>Err e\<close> a return with the
  error \<open>e\<close>, \<open>Panic p\<close> a run-time panic raised inside the call.
\<close>

datatype 'a res = Ok 'a | Err error | Panic panic

definition eol :: string where
  "eol = [CHR 0x0D, CHR 0x0A]"

text \<open>\<open>err.Error()\<close>: the message of an error value.\<close>

fun Error :: "error \<Rightarrow> string" where
  "Error EOF = ''EOF''"
| "Error ErrUnexpectedEOF = ''unexpected EOF''"
| "Error errInvalidEOL =
     ''invalid EOL (must be '' @ [CHR 0x27, CHR 0x5C, CHR ''r'', CHR 0x5C, CHR ''n'', CHR 0x27]"
| "Error ErrCloseConnection = ''Close''"
| "Error ErrSyntax = ''invalid syntax''"
| "Error ErrRange = ''value out of range''"
| "Error ErrNotFound = ''NOT_FOUND''"
| "Error ErrNotStored = ''NOT_STORED''"
| "Error ErrExists = ''EXISTS''"
| "Error (Other m) = m"

section \<open>Library functions the source calls\<close>

text \<open>
  The Go \<open>int\<close> is taken to be 64 bits wide (as on every 64-bit platform); its
  arithmetic wraps around silently. \<open>wrap_int\<close> is the value of an \<open>int\<close> expression
  whose mathematical value is \<open>x\<close>.
\<close>

definition MaxInt :: int where
  "MaxInt = 2 ^ 63 - 1"

definition MinInt :: int where
  "MinInt = - (2 ^ 63)"

definition wrap_int :: "int \<Rightarrow> int" where
  "wrap_int x = (x + 2 ^ 63) mod 2 ^ 64 - 2 ^ 63"

text \<open>\<open>fmt\<close>'s verb \<open>%d\<close> on a value that is not negative: its decimal digits.\<close>

definition digit_char :: "nat \<Rightarrow> char" where
  "digit_char d = char_of (48 + d)"

fun decimal :: "nat \<Rightarrow> string" where
  "decimal n = (if n < 10 then [digit_char n] else decimal (n div 10) @ [digit_char (n mod 10)])"

declare decimal.simps [simp del]

text \<open>
  \<open>strconv.Atoi\<close>, by its documentation: an optional sign, then one or more decimal
  digits and nothing else; a syntax error otherwise, a range error when the value does not
  fit an \<open>int\<close>.
\<close>

definition is_digit :: "char \<Rightarrow> bool" where
  "is_digit c = (48 \<le> (of_char c :: nat) \<and> (of_char c :: nat) \<le> 57)"

definition digit_val :: "char \<Rightarrow> nat" where
  "digit_val c = of_char c - 48"

fun digits_val :: "nat \<Rightarrow> string \<Rightarrow> nat" where
  "digits_val acc [] = acc"
| "digits_val acc (c # cs) = digits_val (acc * 10 + digit_val c) cs"

definition Atoi :: "string \<Rightarrow> error + int" where
  "Atoi s =
     (let neg = (s \<noteq> [] \<and> hd s = CHR ''-'');
          ds = (if s \<noteq> [] \<and> (hd s = CHR ''-'' \<or> hd s = CHR ''+'') then tl s else s)
      in if ds = [] \<or> \<not> list_all is_digit ds then Inl ErrSyntax
         else let n = int (digits_val 0 ds); v = (if neg then - n else n)
              in if v < MinInt \<or> MaxInt < v then Inl ErrRange else Inr v)"

text \<open>
  \<open>strings.Split(s, sep)\<close> for a separator of one byte: the pieces of \<open>s\<close> between the
  occurrences of \<open>sep\<close>. The result is never empty.
\<close>

fun Split :: "string \<Rightarrow> char \<Rightarrow> string list" where
  "Split [] sep = [[]]"
| "Split (c # cs) sep =
     (if c = sep then [] # Split cs sep
      else (case Split cs sep of
              [] \<Rightarrow> [[c]]
            | p # ps \<Rightarrow> (c # p) # ps))"

section \<open>memcache.go: the connection\<close>

text \<open>
  The \<open>connection\<close> struct wraps a \<open>net.Conn\<close> in a buffered reader and writer. The
  peer is modelled by what it sends: \<open>rd\<close> is the bytes it has sent that the program has
  not read yet, after which the peer has shut its side (a read at the end of \<open>rd\<close> returns
  \<open>io.EOF\<close>). \<open>wbuf\<close> is the content of the \<open>bufio.Writer\<close>, \<open>sent\<close> the bytes
  handed to the socket, in order. Writes and flushes succeed (the dispatcher discards their
  results anyway). \<open>closed\<close> records \<open>conn.Close()\<close>. The extension part of the record
  holds the state that the handler serving the connection closes over; \<open>newConn\<close> takes
  its initial value.
\<close>

record connection =
  rd :: bytes
  wbuf :: bytes
  sent :: bytes
  closed :: bool

definition newConn :: "bytes \<Rightarrow> 'a \<Rightarrow> 'a connection_scheme" where
  "newConn c ext = \<lparr>rd = c, wbuf = [], sent = [], closed = False, \<dots> = ext\<rparr>"

definition Close :: "'a connection_scheme \<Rightarrow> 'a connection_scheme" where
  "Close c = c\<lparr>closed := True\<rparr>"

definition WriteString :: "string \<Rightarrow> 'a connection_scheme \<Rightarrow> 'a connection_scheme" where
  "WriteString s c = c\<lparr>wbuf := wbuf c @ s\<rparr>"

definition Flush :: "'a connection_scheme \<Rightarrow> 'a connection_scheme" where
  "Flush c = c\<lparr>sent := sent c @ wbuf c, wbuf := []\<rparr>"

text \<open>
  \<open>bufio.Reader.ReadString(delim)\<close>: the bytes up to and including the first \<open>delim\<close>;
  when the input ends before a \<open>delim\<close>, the bytes read so far together with the error.
\<close>

definition ReadString :: "char \<Rightarrow> 'a connection_scheme \<Rightarrow> (string \<times> error option) \<times> 'a connection_scheme" where
  "ReadString delim c =
     (if delim \<in> set (rd c)
      then (let line = takeWhile (\<lambda>x. x \<noteq> delim) (rd c) @ [delim]
            in ((line, None), c\<lparr>rd := drop (length line) (rd c)\<rparr>))
      else ((rd c, Some EOF), c\<lparr>rd := []\<rparr>))"

text \<open>
  \<open>io.ReadFull(c, buf)\<close> for a buffer of \<open>n\<close> bytes: exactly \<open>n\<close> bytes, or \<open>io.EOF\<close>
  when no byte could be read, or \<open>io.ErrUnexpectedEOF\<close> when the input ends after some
  but not all of them.
\<close>

definition ReadFull :: "nat \<Rightarrow> 'a connection_scheme \<Rightarrow> (bytes \<times> error option) \<times> 'a connection_scheme" where
  "ReadFull n c =
     (if n \<le> length (rd c) then ((take n (rd c), None), c\<lparr>rd := drop n (rd c)\<rparr>)
      else if rd c = [] then (([], Some EOF), c)
      else ((rd c, Some ErrUnexpectedEOF), c\<lparr>rd := []\<rparr>))"

record Request =
  Command :: string
  Args :: "string list"

text \<open>
  \<open>readRequestLine\<close>. The slice expression \<open>line[len(line)-len(eol):]\<close> panics when its
  lower bound is negative, which is the first branch after the read.
\<close>

definition readRequestLine :: "'a connection_scheme \<Rightarrow> Request res \<times> 'a connection_scheme" where
  "readRequestLine c =
     (case ReadString (CHR 0x0A) c of
        ((line, Some err), c1) \<Rightarrow> (Err err, c1)
      | ((line, None), c1) \<Rightarrow>
          if int (length line) - int (length eol) < 0 then (Panic SliceBoundsOutOfRange, c1)
          else if drop (length line - length eol) line \<noteq> eol then (Err errInvalidEOL, c1)
          else (let parts = Split (take (length line - length eol) line) (CHR '' '');
                    parts = (if length parts = 0 then parts @ [''''] else parts)
                in (Ok \<lparr>Command = hd parts, Args = tl parts\<rparr>, c1)))"

text \<open>
  \<open>readRequestBody\<close>. \<open>length+len(eol)\<close> is an \<open>int\<close> addition and wraps;
  \<open>make\<close> panics on a negative length, and so do the slice expressions \<open>body[length:]\<close>
  and \<open>body[:length]\<close> on a bound that is negative or beyond the slice. Memory is not
  bounded: an allocation of a length that is not negative succeeds.
\<close>

definition readRequestBody :: "int \<Rightarrow> 'a connection_scheme \<Rightarrow> bytes res \<times> 'a connection_scheme" where
  "readRequestBody len c =
     (let n = wrap_int (len + int (length eol))
      in if n < 0 then (Panic MakesliceLenOutOfRange, c)
         else (case ReadFull (nat n) c of
                 ((body, Some err), c1) \<Rightarrow> (Err err, c1)
               | ((body, None), c1) \<Rightarrow>
                   if len < 0 \<or> int (length body) < len then (Panic SliceBoundsOutOfRange, c1)
                   else if drop (nat len) body \<noteq> eol then (Err errInvalidEOL, c1)
                   else (Ok (take (nat len) body), c1)))"

definition ReadBody :: "int \<Rightarrow> 'a connection_scheme \<Rightarrow> bytes res \<times> 'a connection_scheme" where
  "ReadBody len c = readRequestBody len c"

subsection \<open>The response encoder\<close>

definition Status :: "string \<Rightarrow> 'a connection_scheme \<Rightarrow> 'a connection_scheme" where
  "Status status c = Flush (WriteString (status @ eol) c)"

definition UnknownCommandError :: "'a connection_scheme \<Rightarrow> 'a connection_scheme" where
  "UnknownCommandError c = Status ''ERROR'' c"

definition ClientError :: "string \<Rightarrow> 'a connection_scheme \<Rightarrow> 'a connection_scheme" where
  "ClientError msg c = Status (''CLIENT_ERROR '' @ msg) c"

definition ServerError :: "string \<Rightarrow> 'a connection_scheme \<Rightarrow> 'a connection_scheme" where
  "ServerError msg c = Status (''SERVER_ERROR '' @ msg) c"

definition NotFound :: "'a connection_scheme \<Rightarrow> 'a connection_scheme" where
  "NotFound c = Status ''NOT_FOUND'' c"

definition ValueFull :: "string \<Rightarrow> bytes \<Rightarrow> 32 word \<Rightarrow> 64 word \<Rightarrow> 'a connection_scheme \<Rightarrow> 'a connection_scheme" where
  "ValueFull key body flags cas c =
     Flush (WriteString eol (WriteString body (WriteString eol
       (WriteString (''VALUE '' @ key @ '' '' @ decimal (unat flags) @ '' ''
                      @ decimal (length body) @ '' '' @ decimal (unat cas)) c))))"

definition Value :: "string \<Rightarrow> bytes \<Rightarrow> 'a connection_scheme \<Rightarrow> 'a connection_scheme" where
  "Value key body c = ValueFull key body 0 0 c"

subsection \<open>The connection loop\<close>

text \<open>
  \<open>run\<close>: the \<open>for\<close> loop with its deferred \<open>Close\<close>. A handler is a function on the
  connection it is given. The loop has no bound of its own, so the model counts iterations:
  \<open>run n\<close> performs at most \<open>n\<close> of them and says so when they do not suffice. The list
  \<open>served\<close> is not program state: it records, in order, the requests
  \<open>ServeMemcache\<close> was called with. A panic runs the deferred \<open>Close\<close> and then leaves
  the goroutine, which nothing recovers.
\<close>

datatype 'c outcome =
    Closed 'c
  | Crashed panic 'c
  | OutOfFuel 'c

type_synonym 'a Handler = "Request \<Rightarrow> 'a connection_scheme \<Rightarrow> unit res \<times> 'a connection_scheme"

fun run :: "nat \<Rightarrow> 'a Handler \<Rightarrow> Request list \<Rightarrow> 'a connection_scheme
              \<Rightarrow> Request list \<times> 'a connection_scheme outcome" where
  "run 0 handler served c = (served, OutOfFuel c)"
| "run (Suc n) handler served c =
     (case readRequestLine c of
        (Panic p, c1) \<Rightarrow> (served, Crashed p (Close c1))
      | (Err err, c1) \<Rightarrow> (served, Closed (Close c1))
      | (Ok req, c1) \<Rightarrow>
          if Command req = [] then run n handler served c1
          else (case handler req c1 of
                  (Panic p, c2) \<Rightarrow> (served @ [req], Crashed p (Close c2))
                | (Err err, c2) \<Rightarrow> (served @ [req], Closed (Close c2))
                | (Ok u, c2) \<Rightarrow> run n handler (served @ [req]) c2))"

definition HandleConnection :: "nat \<Rightarrow> bytes \<Rightarrow> 'a \<Rightarrow> 'a Handler
                                 \<Rightarrow> Request list \<times> 'a connection_scheme outcome" where
  "HandleConnection n c ext h = run n h [] (newConn c ext)"

section \<open>simplemmc/srv.go: the dispatcher\<close>

datatype SetMode = Set | Add | Replace

text \<open>
  The store behind the \<open>simplemmc.Handler\<close> interface is any implementation of its three
  methods over a state \<open>'s\<close> of its own: each method takes the state and returns its Go
  results with the state after the call. The fields \<open>hGet\<close>, \<open>hSet\<close> and \<open>hDel\<close> are the
  methods \<open>Get\<close>, \<open>Set\<close> and \<open>Del\<close> of the Go variable \<open>h\<close>.
\<close>

record 's store =
  hGet :: "string \<Rightarrow> 's \<Rightarrow> (bytes \<times> error option) \<times> 's"
  hSet :: "string \<Rightarrow> bytes \<Rightarrow> SetMode \<Rightarrow> 's \<Rightarrow> error option \<times> 's"
  hDel :: "string \<Rightarrow> 's \<Rightarrow> error option \<times> 's"

text \<open>
  What the dispatcher works on: the connection of the request and response it was given,
  and the store's state \<open>st\<close>. \<open>calls\<close> is not program state: it records, in order, the
  calls made to the store.
\<close>

datatype call = CallGet string | CallSet string bytes SetMode | CallDel string

record 's world = connection +
  st :: 's
  calls :: "call list"

definition call_Get :: "'s store \<Rightarrow> string \<Rightarrow> 's world \<Rightarrow> (bytes \<times> error option) \<times> 's world" where
  "call_Get h key w =
     (case hGet h key (st w) of
        (r, s) \<Rightarrow> (r, w\<lparr>st := s, calls := calls w @ [CallGet key]\<rparr>))"

definition call_Set :: "'s store \<Rightarrow> string \<Rightarrow> bytes \<Rightarrow> SetMode \<Rightarrow> 's world \<Rightarrow> error option \<times> 's world" where
  "call_Set h key val mode w =
     (case hSet h key val mode (st w) of
        (r, s) \<Rightarrow> (r, w\<lparr>st := s, calls := calls w @ [CallSet key val mode]\<rparr>))"

definition call_Del :: "'s store \<Rightarrow> string \<Rightarrow> 's world \<Rightarrow> error option \<times> 's world" where
  "call_Del h key w =
     (case hDel h key (st w) of
        (r, s) \<Rightarrow> (r, w\<lparr>st := s, calls := calls w @ [CallDel key]\<rparr>))"

text \<open>
  The \<open>for _, key := range req.Args\<close> loop of the \<open>get\<close>/\<open>gets\<close> case. The flag is
  \<open>False\<close> when the loop was left by the \<open>return\<close> after \<open>ServerError\<close>, \<open>True\<close>
  when it ran to its end.
\<close>

fun get_loop :: "'s store \<Rightarrow> string list \<Rightarrow> 's world \<Rightarrow> bool \<times> 's world" where
  "get_loop h [] w = (True, w)"
| "get_loop h (key # keys) w =
     (case call_Get h key w of
        ((data, err), w1) \<Rightarrow>
          if err = Some ErrNotFound then get_loop h keys w1
          else if err \<noteq> None then (False, ServerError (Error (the err)) w1)
          else get_loop h keys (Value key data w1))"

text \<open>
  The \<open>set\<close>/\<open>add\<close>/\<open>replace\<close> case and the \<open>del\<close> case of the \<open>switch\<close>.
  The handler's result type is \<open>error\<close>, and the source writes \<open>return\<close> without a
  value after its error responses and ends the function body without a \<open>return\<close>. Both
  are read as returning a nil error: the only error the handler names is
  \<open>ErrCloseConnection\<close>, in the \<open>quit\<close> case.
\<close>

definition set_case :: "'s store \<Rightarrow> Request \<Rightarrow> 's world \<Rightarrow> unit res \<times> 's world" where
  "set_case h req w =
     (if length (Args req) < 4 then (Ok (), ClientError ''invalid command format'' w)
      else
        (let noreply = (length (Args req) = 5 \<and> Args req ! 4 = ''noreply'')
         in case Atoi (Args req ! 3) of
              Inl err \<Rightarrow> (Ok (), if \<not> noreply then ClientError ''invalid data length'' w else w)
            | Inr bodyLen \<Rightarrow>
                if bodyLen < 0
                then (Ok (), if \<not> noreply then ClientError ''invalid data length'' w else w)
                else
                  (case ReadBody bodyLen w of
                     (Panic p, w1) \<Rightarrow> (Panic p, w1)
                   | (Err err, w1) \<Rightarrow>
                       (Ok (), if \<not> noreply then ServerError (Error err) w1 else w1)
                   | (Ok body, w1) \<Rightarrow>
                       (let mode = (if Command req = ''set'' then Set
                                    else if Command req = ''add'' then Add
                                    else if Command req = ''replace'' then Replace
                                    else Set)
                        in case call_Set h (Args req ! 0) body mode w1 of
                             (err, w2) \<Rightarrow>
                               (Ok (),
                                if \<not> noreply then
                                  (if err = Some ErrNotStored \<or> err = Some ErrNotFound
                                      \<or> err = Some ErrExists
                                   then Status (Error (the err)) w2
                                   else if err \<noteq> None then ServerError (Error (the err)) w2
                                   else Status ''STORED'' w2)
                                else w2)))))"

definition del_case :: "'s store \<Rightarrow> Request \<Rightarrow> 's world \<Rightarrow> unit res \<times> 's world" where
  "del_case h req w =
     (if length (Args req) < 1 then (Ok (), ClientError ''invalid command format'' w)
      else
        (let noreply = (length (Args req) = 2 \<and> Args req ! 1 = ''noreply'')
         in case call_Del h (Args req ! 0) w of
              (err, w1) \<Rightarrow>
                (Ok (),
                 if \<not> noreply then
                   (if err = Some ErrNotFound then Status (Error (the err)) w1
                    else if err \<noteq> None then ServerError (Error (the err)) w1
                    else Status ''DELETED'' w1)
                 else w1)))"

text \<open>
  \<open>fullHandler\<close>. The constant \<open>MemcacheVersion\<close> is declared in neither source file and
  is a parameter here.
\<close>

definition fullHandler :: "string \<Rightarrow> 's store \<Rightarrow> Request \<Rightarrow> 's world \<Rightarrow> unit res \<times> 's world" where
  "fullHandler MemcacheVersion h req w =
     (if Command req = ''get'' \<or> Command req = ''gets'' then
        (if length (Args req) = 0 then (Ok (), ClientError ''key required'' w)
         else
           (let args = (if Command req = ''get'' then take 1 (Args req) else Args req)
            in case get_loop h args w of
                 (False, w1) \<Rightarrow> (Ok (), w1)
               | (True, w1) \<Rightarrow> (Ok (), Status ''END'' w1)))
      else if Command req = ''set'' \<or> Command req = ''add'' \<or> Command req = ''replace'' then
        set_case h req w
      else if Command req = ''del'' then del_case h req w
      else if Command req = ''version'' then (Ok (), Status (''VERSION '' @ MemcacheVersion) w)
      else if Command req = ''quit'' then (Err ErrCloseConnection, w)
      else (Ok (), UnknownCommandError w))"

section \<open>Notions used to state the results\<close>

text \<open>
  These are not translations of source functions; the theorems about \<open>gets\<close> are stated
  with them. \<open>get_results h keys s\<close> is what successive calls of the store's \<open>Get\<close> on
  \<open>keys\<close> return, in order, starting from store state \<open>s\<close>, and \<open>get_states\<close> the store
  state after them. A result is a hard error when its error is neither nil nor
  \<open>ErrNotFound\<close>. \<open>value_block\<close> is the wire form of one value response with flags and
  cas 0, and \<open>value_blocks\<close> the wire form of the values found in a list of keys paired
  with their results.
\<close>

fun get_results :: "'s store \<Rightarrow> string list \<Rightarrow> 's \<Rightarrow> (bytes \<times> error option) list" where
  "get_results h [] s = []"
| "get_results h (key # keys) s = fst (hGet h key s) # get_results h keys (snd (hGet h key s))"

fun get_states :: "'s store \<Rightarrow> string list \<Rightarrow> 's \<Rightarrow> 's" where
  "get_states h [] s = s"
| "get_states h (key # keys) s = get_states h keys (snd (hGet h key s))"

definition hard_error :: "bytes \<times> error option \<Rightarrow> bool" where
  "hard_error r = (snd r \<noteq> None \<and> snd r \<noteq> Some ErrNotFound)"

definition value_block :: "string \<Rightarrow> bytes \<Rightarrow> bytes" where
  "value_block key body =
     ''VALUE '' @ key @ '' 0 '' @ decimal (length body) @ '' 0'' @ eol @ body @ eol"

fun value_blocks :: "(string \<times> bytes \<times> error option) list \<Rightarrow> bytes" where
  "value_blocks [] = []"
| "value_blocks ((key, data, err) # rs) =
     (if err = None then value_block key data else []) @ value_blocks rs"

section \<open>An example store\<close>

text \<open>
  A store to run the dispatcher on: an association list, newest binding first. \<open>Add\<close>
  refuses a key that is bound and \<open>Replace\<close> one that is not; the key \<open>bad\<close> stands for
  a failing backend. \<open>start inp s\<close> is a fresh connection on which the peer sends
  \<open>inp\<close>, with the store in state \<open>s\<close>.
\<close>

definition example_store :: "(string \<times> bytes) list store" where
  "example_store =
     \<lparr>hGet = (\<lambda>key s. if key = ''bad'' then (([], Some (Other ''disk failure'')), s)
                      else (case map_of s key of
                              None \<Rightarrow> (([], Some ErrNotFound), s)
                            | Some v \<Rightarrow> ((v, None), s))),
      hSet = (\<lambda>key val mode s.
                if key = ''bad'' then (Some (Other ''disk failure''), s)
                else if mode = Add \<and> map_of s key \<noteq> None then (Some ErrNotStored, s)
                else if mode = Replace \<and> map_of s key = None then (Some ErrNotStored, s)
                else (None, (key, val) # s)),
      hDel = (\<lambda>key s. if map_of s key = None then (Some ErrNotFound, s)
                      else (None, filter (\<lambda>p. fst p \<noteq> key) s))\<rparr>"

definition start :: "bytes \<Rightarrow> 's \<Rightarrow> 's world" where
  "start inp s = \<lparr>rd = inp, wbuf = [], sent = [], closed = False, st = s, calls = []\<rparr>"

section \<open>Facts about the library functions and the connection\<close>


lemma Status_eq: "Status s c = c\<lparr>sent := sent c @ wbuf c @ s @ eol, wbuf := []\<rparr>"
  by (simp add: Status_def Flush_def WriteString_def)

lemma decimal_0: "decimal 0 = ''0''"
  by code_simp

lemma Value_eq:
  "Value k d c = c\<lparr>sent := sent c @ wbuf c @ ''VALUE '' @ k @ '' 0 '' @ decimal (length d) @ '' 0'' @ eol @ d @ eol, wbuf := []\<rparr>"
  by (simp add: Value_def ValueFull_def Flush_def WriteString_def decimal_0)

lemma ReadString_line:
  "rd c = l @ delim # rest \<Longrightarrow> delim \<notin> set l \<Longrightarrow>
   ReadString delim c = ((l @ [delim], None), c\<lparr>rd := rest\<rparr>)"
proof -
  assume r: "rd c = l @ delim # rest" and n: "delim \<notin> set l"
  have "takeWhile (\<lambda>x. x \<noteq> delim) (l @ delim # rest) = l"
    using n by (induction l) auto
  then show ?thesis using r n by (simp add: ReadString_def Let_def)
qed

lemma Split_nonempty: "Split s sep \<noteq> []"
  by (induction s) (auto split: list.splits)

lemma Split_single: "sep \<notin> set w \<Longrightarrow> Split w sep = [w]"
  by (induction w) auto

lemma Split_cons: "sep \<notin> set w \<Longrightarrow> Split (w @ sep # r) sep = w # Split r sep"
  by (induction w) auto

lemma readRequestLine_ok:
  assumes "rd c = l @ eol @ rest" and "CHR 0x0A \<notin> set l"
  shows "readRequestLine c =
    (Ok \<lparr>Command = hd (Split l (CHR '' '')), Args = tl (Split l (CHR '' ''))\<rparr>, c\<lparr>rd := rest\<rparr>)"
proof -
  have "rd c = (l @ [CHR 0x0D]) @ CHR 0x0A # rest" using assms(1) by (simp add: eol_def)
  moreover have "CHR 0x0A \<notin> set (l @ [CHR 0x0D])" using assms(2) by simp
  ultimately have "ReadString (CHR 0x0A) c = (((l @ [CHR 0x0D]) @ [CHR 0x0A], None), c\<lparr>rd := rest\<rparr>)"
    by (rule ReadString_line)
  then show ?thesis
    by (simp add: readRequestLine_def eol_def Let_def Split_nonempty)
qed

lemma digits_val_snoc: "digits_val acc (xs @ [c]) = digits_val acc xs * 10 + digit_val c"
  by (induction xs arbitrary: acc) auto

lemma digit_val_char: "d < 10 \<Longrightarrow> digit_val (digit_char d) = d"
  by (simp add: digit_val_def digit_char_def)

lemma is_digit_char: "d < 10 \<Longrightarrow> is_digit (digit_char d)"
  by (simp add: is_digit_def digit_char_def)

lemma digits_val_decimal: "digits_val 0 (decimal n) = n"
proof (induction n rule: decimal.induct)
  case (1 n)
  show ?case
  proof (cases "n < 10")
    case True
    then show ?thesis by (simp add: decimal.simps [of n] digit_val_char)
  next
    case False
    with 1 show ?thesis
      by (simp add: decimal.simps [of n] digits_val_snoc digit_val_char)
  qed
qed

lemma decimal_digits: "list_all is_digit (decimal n)"
proof (induction n rule: decimal.induct)
  case (1 n)
  then show ?case
    by (cases "n < 10") (simp_all add: decimal.simps [of n] is_digit_char)
qed

lemma decimal_nonempty: "decimal n \<noteq> []"
  by (simp add: decimal.simps [of n])

lemma is_digit_not_sign: "is_digit c \<Longrightarrow> c \<noteq> CHR ''-'' \<and> c \<noteq> CHR ''+'' \<and> c \<noteq> CHR '' '' \<and> c \<noteq> CHR 0x0A"
  by (auto simp: is_digit_def)

lemma Atoi_decimal: "int n \<le> MaxInt \<Longrightarrow> Atoi (decimal n) = Inr (int n)"
proof -
  assume le: "int n \<le> MaxInt"
  obtain c cs where d: "decimal n = c # cs"
    using decimal_nonempty [of n] by (cases "decimal n") auto
  have "is_digit c" using decimal_digits [of n] d by simp
  then have "c \<noteq> CHR ''-''" "c \<noteq> CHR ''+''" using is_digit_not_sign by auto
  then show ?thesis
    using le decimal_digits [of n] digits_val_decimal [of n] d
    by (simp add: Atoi_def Let_def MinInt_def MaxInt_def)
qed

lemma decimal_no_sep: "CHR '' '' \<notin> set (decimal n) \<and> CHR 0x0A \<notin> set (decimal n)"
  using decimal_digits [of n] is_digit_not_sign by (auto simp: list_all_iff)

lemma readRequestBody_ok:
  assumes "rd c = body @ eol @ rest" and "int (length body) \<le> MaxInt - 2"
  shows "readRequestBody (int (length body)) c = (Ok body, c\<lparr>rd := rest\<rparr>)"
proof -
  have w: "wrap_int (int (length body) + int (length eol)) = int (length body) + 2"
    using assms(2) by (simp add: wrap_int_def MaxInt_def eol_def)
  have n: "nat (int (length body) + 2) = length body + 2" by simp
  have "ReadFull (length body + 2) c = ((body @ eol, None), c\<lparr>rd := rest\<rparr>)"
    using assms(1) by (simp add: ReadFull_def eol_def)
  then show ?thesis
    by (simp add: readRequestBody_def w n Let_def del: of_nat_add)
qed

section \<open>The connection loop\<close>

lemma run_continue:
  "readRequestLine c = (Ok req, c1) \<Longrightarrow> Command req \<noteq> [] \<Longrightarrow> handler req c1 = (Ok u, c2) \<Longrightarrow>
   run (Suc n) handler served c = run n handler (served @ [req]) c2"
  by simp

subsection \<open>Lines that do not end in CR LF\<close>

text \<open>
  A line of two or more bytes whose last two bytes are not CR LF is refused with
  \<open>errInvalidEOL\<close>, and the loop closes the connection with nothing written and no
  handler called.
\<close>

lemma readRequestLine_bad_eol:
  assumes "rd c = l @ CHR 0x0A # rest" and "CHR 0x0A \<notin> set l"
    and "l \<noteq> []" and "last l \<noteq> CHR 0x0D"
  shows "readRequestLine c = (Err errInvalidEOL, c\<lparr>rd := rest\<rparr>)"
proof -
  obtain l' x where l: "l = l' @ [x]" using assms(3) by (metis rev_exhaust)
  have x: "x \<noteq> CHR 0x0D" using assms(4) l by simp
  have "ReadString (CHR 0x0A) c = ((l @ [CHR 0x0A], None), c\<lparr>rd := rest\<rparr>)"
    using assms(1,2) by (rule ReadString_line)
  then show ?thesis using x
    by (simp add: readRequestLine_def eol_def l)
qed

lemma run_bad_eol_closes:
  assumes "rd c = l @ CHR 0x0A # rest" and "CHR 0x0A \<notin> set l"
    and "l \<noteq> []" and "last l \<noteq> CHR 0x0D"
  shows "run (Suc n) handler served c = (served, Closed (Close (c\<lparr>rd := rest\<rparr>)))"
  using readRequestLine_bad_eol [OF assms] by simp

text \<open>
  C1. The claim is that every line read whose trailing bytes are not CR LF makes decoding
  fail with \<open>errInvalidEOL\<close> and the loop close the connection, the line of the single
  byte LF included. For that line the code does something else: \<open>len(line)-len(eol)\<close>
  is \<open>-1\<close>, the slice expression \<open>line[-1:]\<close> panics, \<open>readRequestLine\<close> returns no
  error value at all, and \<open>run\<close> is left by the panic (its deferred \<open>Close\<close> runs, then
  the panic leaves the goroutine). This holds for every connection state, whatever follows
  the LF and whatever the handler is.
\<close>

theorem lone_newline_panics:
  "readRequestLine (c\<lparr>rd := CHR 0x0A # rest\<rparr>) = (Panic SliceBoundsOutOfRange, c\<lparr>rd := rest\<rparr>)
   \<and> run (Suc n) handler served (c\<lparr>rd := CHR 0x0A # rest\<rparr>)
       = (served, Crashed SliceBoundsOutOfRange (Close (c\<lparr>rd := rest\<rparr>)))"
proof -
  have "ReadString (CHR 0x0A) (c\<lparr>rd := CHR 0x0A # rest\<rparr>) = (([CHR 0x0A], None), c\<lparr>rd := rest\<rparr>)"
    using ReadString_line [of "c\<lparr>rd := CHR 0x0A # rest\<rparr>" "[]" "CHR 0x0A" rest] by simp
  then have "readRequestLine (c\<lparr>rd := CHR 0x0A # rest\<rparr>) = (Panic SliceBoundsOutOfRange, c\<lparr>rd := rest\<rparr>)"
    by (simp add: readRequestLine_def eol_def)
  then show ?thesis by simp
qed

theorem lone_newline_panics_witness:
  "HandleConnection 1 [CHR 0x0A] () (\<lambda>req c. (Ok (), c))
     = ([], Crashed SliceBoundsOutOfRange \<lparr>rd = [], wbuf = [], sent = [], closed = True\<rparr>)"
  using lone_newline_panics [where c = "newConn [] ()" and rest = "[]" and n = 0
      and handler = "\<lambda>req c. (Ok (), c)" and served = "[]"]
  by (simp add: HandleConnection_def newConn_def Close_def)

subsection \<open>Empty commands\<close>

lemma run_served_nonempty:
  "\<forall>r \<in> set served. Command r \<noteq> [] \<Longrightarrow> \<forall>r \<in> set (fst (run n handler served c)). Command r \<noteq> []"
proof (induction n arbitrary: served c)
  case 0
  then show ?case by simp
next
  case (Suc n)
  show ?case
  proof (cases "readRequestLine c")
    case (Pair r c1)
    show ?thesis
    proof (cases r)
      case (Ok req)
      show ?thesis
      proof (cases "Command req = []")
        case True
        then show ?thesis using Pair Ok Suc.IH [OF Suc.prems] by simp
      next
        case False
        then have all: "\<forall>r \<in> set (served @ [req]). Command r \<noteq> []" using Suc.prems by simp
        obtain r2 c2 where h: "handler req c1 = (r2, c2)" by (cases "handler req c1")
        show ?thesis
          using Pair Ok False h all Suc.IH [OF all, of c2]
          by (cases r2) simp_all
      qed
    next
      case (Err e)
      then show ?thesis using Pair Suc.prems by simp
    next
      case (Panic p)
      then show ?thesis using Pair Suc.prems by simp
    qed
  qed
qed

lemma Split_first_empty: "l = [] \<or> hd l = sep \<Longrightarrow> hd (Split l sep) = []"
  by (cases l) auto

lemma run_skips_empty_command:
  assumes "rd c = l @ eol @ rest" and "CHR 0x0A \<notin> set l" and "l = [] \<or> hd l = CHR '' ''"
  shows "run (Suc n) handler served c = run n handler served (c\<lparr>rd := rest\<rparr>)"
  using readRequestLine_ok [OF assms(1,2)] Split_first_empty [OF assms(3)] by simp

text \<open>
  C8. The handler is never called with an empty \<open>Command\<close>: in a run from
  \<open>HandleConnection\<close>, and in a run from any state after any number of iterations, every
  request the handler was called with has a non-empty command. A line that is empty before
  its CR LF, or that starts with a space (its first token is empty), is skipped: the
  iteration changes nothing but the read position (nothing is written, the handler is not
  called, the loop does not stop) and the loop goes on with the bytes after the line.
\<close>

theorem empty_command_never_dispatched:
  "list_all (\<lambda>r. Command r \<noteq> []) (fst (HandleConnection n inp ext handler))
   \<and> (list_all (\<lambda>r. Command r \<noteq> []) served
        \<longrightarrow> list_all (\<lambda>r. Command r \<noteq> []) (fst (run n handler served c)))
   \<and> (rd c = l @ eol @ rest \<and> CHR 0x0A \<notin> set l \<and> (l = [] \<or> hd l = CHR '' '')
        \<longrightarrow> run (Suc n) handler served c = run n handler served (c\<lparr>rd := rest\<rparr>))"
  using run_served_nonempty [of "[]" n handler "newConn inp ext"]
    run_served_nonempty [of served n handler c]
    run_skips_empty_command [of c l rest n handler served]
  by (simp add: HandleConnection_def list_all_iff)

lemma run_three_lines:
  "HandleConnection 3 (eol @ '' x'' @ eol @ ''y'' @ eol) () (\<lambda>req c. (Ok (), Status ''hello'' c))
     = ([\<lparr>Command = ''y'', Args = []\<rparr>],
        OutOfFuel \<lparr>rd = [], wbuf = [], sent = ''hello'' @ eol, closed = False\<rparr>)"
  by code_simp

theorem empty_command_never_dispatched_witness:
  "list_all (\<lambda>r. Command r \<noteq> [])
     (fst (HandleConnection 3 (eol @ '' x'' @ eol @ ''y'' @ eol) () (\<lambda>req c. (Ok (), Status ''hello'' c))))
   \<and> HandleConnection 3 (eol @ '' x'' @ eol @ ''y'' @ eol) () (\<lambda>req c. (Ok (), Status ''hello'' c))
     = ([\<lparr>Command = ''y'', Args = []\<rparr>],
        OutOfFuel \<lparr>rd = [], wbuf = [], sent = ''hello'' @ eol, closed = False\<rparr>)
   \<and> rd (newConn (eol @ '' x'' @ eol @ ''y'' @ eol) ()) = [] @ eol @ '' x'' @ eol @ ''y'' @ eol
   \<and> run (Suc 2) (\<lambda>req c. (Ok (), Status ''hello'' c)) [] (newConn (eol @ '' x'' @ eol @ ''y'' @ eol) ())
     = run 2 (\<lambda>req c. (Ok (), Status ''hello'' c)) []
         (newConn (eol @ '' x'' @ eol @ ''y'' @ eol) ()\<lparr>rd := '' x'' @ eol @ ''y'' @ eol\<rparr>)"
proof -
  have r: "rd (newConn (eol @ '' x'' @ eol @ ''y'' @ eol) ()) = [] @ eol @ '' x'' @ eol @ ''y'' @ eol"
    by (simp add: newConn_def)
  show ?thesis
    using r run_three_lines
      empty_command_never_dispatched [where n = 2 and served = "[]"
        and handler = "\<lambda>req c. (Ok (), Status ''hello'' c)"
        and c = "newConn (eol @ '' x'' @ eol @ ''y'' @ eol) ()" and l = "[]"
        and rest = "'' x'' @ eol @ ''y'' @ eol"]
      empty_command_never_dispatched [where n = 3 and inp = "eol @ '' x'' @ eol @ ''y'' @ eol"
        and ext = "()" and handler = "\<lambda>req c. (Ok (), Status ''hello'' c)" and served = "[]"
        and c = "newConn [] ()" and l = "''x''" and rest = "[]"]
    by simp
qed

section \<open>The dispatcher\<close>

lemma ClientError_eq:
  "ClientError msg c = c\<lparr>sent := sent c @ wbuf c @ ''CLIENT_ERROR '' @ msg @ eol, wbuf := []\<rparr>"
  by (simp add: ClientError_def Status_eq)

lemma ServerError_eq:
  "ServerError msg c = c\<lparr>sent := sent c @ wbuf c @ ''SERVER_ERROR '' @ msg @ eol, wbuf := []\<rparr>"
  by (simp add: ServerError_def Status_eq)

text \<open>
  C9. A \<open>get\<close> or \<open>gets\<close> request with no argument is answered with
  \<open>CLIENT_ERROR key required\<close> and nothing else: no \<open>END\<close> follows, the store is not
  called and its state is unchanged, and the handler returns a nil error, so that the loop
  which read the request goes on to its next iteration from the state the handler left.
\<close>

theorem get_without_key:
  assumes "Command req = ''get'' \<or> Command req = ''gets''" and "Args req = []"
  shows "fullHandler ver h req w = (Ok (), ClientError ''key required'' w)
    \<and> ClientError ''key required'' w
        = w\<lparr>sent := sent w @ wbuf w @ ''CLIENT_ERROR key required'' @ eol, wbuf := []\<rparr>
    \<and> calls (snd (fullHandler ver h req w)) = calls w
    \<and> st (snd (fullHandler ver h req w)) = st w
    \<and> (readRequestLine c = (Ok req, w) \<longrightarrow>
          run (Suc n) (fullHandler ver h) served c
            = run n (fullHandler ver h) (served @ [req]) (ClientError ''key required'' w))"
proof -
  have f: "fullHandler ver h req w = (Ok (), ClientError ''key required'' w)"
    using assms by (auto simp: fullHandler_def)
  have ne: "Command req \<noteq> []" using assms(1) by auto
  show ?thesis
    using f ne by (simp add: ClientError_eq)
qed

text \<open>
  C4. A \<open>set\<close>, \<open>add\<close> or \<open>replace\<close> request with fewer than four arguments is
  answered with \<open>CLIENT_ERROR invalid command format\<close>; no body is read (the read position
  is unchanged) and the store is not called. Nothing is assumed about the arguments, so
  the answer is written also when one of them, the last included, is \<open>noreply\<close>.
\<close>

theorem store_command_too_few_args:
  assumes "Command req = ''set'' \<or> Command req = ''add'' \<or> Command req = ''replace''"
    and "length (Args req) < 4"
  shows "fullHandler ver h req w = (Ok (), ClientError ''invalid command format'' w)
    \<and> ClientError ''invalid command format'' w
        = w\<lparr>sent := sent w @ wbuf w @ ''CLIENT_ERROR invalid command format'' @ eol, wbuf := []\<rparr>
    \<and> rd (snd (fullHandler ver h req w)) = rd w
    \<and> calls (snd (fullHandler ver h req w)) = calls w
    \<and> st (snd (fullHandler ver h req w)) = st w"
proof -
  have "fullHandler ver h req w = set_case h req w"
    using assms(1) by (auto simp: fullHandler_def)
  then have f: "fullHandler ver h req w = (Ok (), ClientError ''invalid command format'' w)"
    using assms(2) by (simp add: set_case_def)
  show ?thesis
    using f by (simp add: ClientError_eq)
qed

text \<open>
  C5. A \<open>set\<close>, \<open>add\<close> or \<open>replace\<close> request with at least four arguments whose
  fourth argument is not the decimal form of an \<open>int\<close> that is not negative: the handler
  writes \<open>CLIENT_ERROR invalid data length\<close>, or nothing at all when there are exactly
  five arguments and the fifth is \<open>noreply\<close>; it reads no body, does not call the store,
  and returns a nil error, so that the loop goes on to its next iteration.
\<close>

theorem store_command_bad_length:
  assumes "Command req = ''set'' \<or> Command req = ''add'' \<or> Command req = ''replace''"
    and "4 \<le> length (Args req)"
    and "\<not> (\<exists>n. Atoi (Args req ! 3) = Inr n \<and> 0 \<le> n)"
  shows "fullHandler ver h req w
           = (Ok (), if length (Args req) = 5 \<and> Args req ! 4 = ''noreply'' then w
                     else ClientError ''invalid data length'' w)
    \<and> ClientError ''invalid data length'' w
        = w\<lparr>sent := sent w @ wbuf w @ ''CLIENT_ERROR invalid data length'' @ eol, wbuf := []\<rparr>
    \<and> rd (snd (fullHandler ver h req w)) = rd w
    \<and> calls (snd (fullHandler ver h req w)) = calls w
    \<and> st (snd (fullHandler ver h req w)) = st w
    \<and> (readRequestLine c = (Ok req, w) \<longrightarrow>
          run (Suc n) (fullHandler ver h) served c
            = run n (fullHandler ver h) (served @ [req]) (snd (fullHandler ver h req w)))"
proof -
  have s: "fullHandler ver h req w = set_case h req w"
    using assms(1) by (auto simp: fullHandler_def)
  have f: "set_case h req w
           = (Ok (), if length (Args req) = 5 \<and> Args req ! 4 = ''noreply'' then w
                     else ClientError ''invalid data length'' w)"
  proof (cases "Atoi (Args req ! 3)")
    case (Inl e)
    then show ?thesis using assms(2) by (simp add: set_case_def)
  next
    case (Inr v)
    then have "v < 0" using assms(3) by auto
    then show ?thesis using Inr assms(2) by (simp add: set_case_def)
  qed
  have ne: "Command req \<noteq> []" using assms(1) by auto
  show ?thesis
    using s f ne by (simp add: ClientError_eq)
qed

text \<open>
  C2. A \<open>get\<close> request with at least one argument makes exactly one call to the store,
  \<open>Get\<close> on the first argument, whatever the other arguments are. If the call returns a
  nil error, one \<open>VALUE\<close> block for that key is written and then \<open>END\<close>; if it returns
  \<open>ErrNotFound\<close>, only \<open>END\<close>; on any other error \<open>SERVER_ERROR\<close> with the error's
  message, and no \<open>END\<close>.
\<close>

theorem get_first_key_only:
  assumes "Command req = ''get''" and "Args req = key # others"
    and "hGet h key (st w) = ((data, err), s)"
  shows "fullHandler ver h req w
           = (Ok (),
              (if err = None then Status ''END'' (Value key data (w\<lparr>st := s, calls := calls w @ [CallGet key]\<rparr>))
               else if err = Some ErrNotFound then Status ''END'' (w\<lparr>st := s, calls := calls w @ [CallGet key]\<rparr>)
               else ServerError (Error (the err)) (w\<lparr>st := s, calls := calls w @ [CallGet key]\<rparr>)))
    \<and> calls (snd (fullHandler ver h req w)) = calls w @ [CallGet key]
    \<and> sent (snd (fullHandler ver h req w))
        = sent w @ wbuf w @
          (if err = None then ''VALUE '' @ key @ '' 0 '' @ decimal (length data) @ '' 0'' @ eol @ data @ eol @ ''END'' @ eol
           else if err = Some ErrNotFound then ''END'' @ eol
           else ''SERVER_ERROR '' @ Error (the err) @ eol)"
proof -
  have f: "fullHandler ver h req w
           = (Ok (),
              (if err = None then Status ''END'' (Value key data (w\<lparr>st := s, calls := calls w @ [CallGet key]\<rparr>))
               else if err = Some ErrNotFound then Status ''END'' (w\<lparr>st := s, calls := calls w @ [CallGet key]\<rparr>)
               else ServerError (Error (the err)) (w\<lparr>st := s, calls := calls w @ [CallGet key]\<rparr>)))"
    using assms by (simp add: fullHandler_def call_Get_def)
  show ?thesis
    unfolding f by (simp add: Status_eq Value_eq ServerError_eq)
qed

text \<open>
  C6. A \<open>set\<close>, \<open>add\<close> or \<open>replace\<close> request whose length argument parses and whose
  body is read: the store's \<open>Set\<close> is called once, with the first argument as key, the body,
  and the mode \<open>Set\<close>, \<open>Add\<close> or \<open>Replace\<close> by the command name. A nil result is
  answered \<open>STORED\<close>; \<open>ErrNotStored\<close>, \<open>ErrNotFound\<close> and \<open>ErrExists\<close> are answered
  \<open>NOT_STORED\<close>, \<open>NOT_FOUND\<close> and \<open>EXISTS\<close>; any other error \<open>SERVER_ERROR\<close> with
  its message. With exactly five arguments, the fifth being \<open>noreply\<close>, nothing is written.
\<close>

theorem store_command_result:
  assumes "Command req = ''set'' \<or> Command req = ''add'' \<or> Command req = ''replace''"
    and "4 \<le> length (Args req)"
    and "Atoi (Args req ! 3) = Inr bodyLen" and "0 \<le> bodyLen"
    and "ReadBody bodyLen w = (Ok body, w1)"
    and "mode = (if Command req = ''set'' then Set else if Command req = ''add'' then Add else Replace)"
    and "hSet h (Args req ! 0) body mode (st w1) = (err, s)"
    and "w2 = w1\<lparr>st := s, calls := calls w1 @ [CallSet (Args req ! 0) body mode]\<rparr>"
  shows "fullHandler ver h req w
           = (Ok (),
              if length (Args req) = 5 \<and> Args req ! 4 = ''noreply'' then w2
              else if err = None then Status ''STORED'' w2
              else if err = Some ErrNotStored then Status ''NOT_STORED'' w2
              else if err = Some ErrNotFound then Status ''NOT_FOUND'' w2
              else if err = Some ErrExists then Status ''EXISTS'' w2
              else ServerError (Error (the err)) w2)
    \<and> calls (snd (fullHandler ver h req w)) = calls w1 @ [CallSet (Args req ! 0) body mode]
    \<and> (length (Args req) = 5 \<and> Args req ! 4 = ''noreply'' \<longrightarrow>
         sent (snd (fullHandler ver h req w)) = sent w1 \<and> wbuf (snd (fullHandler ver h req w)) = wbuf w1)"
proof -
  have s: "fullHandler ver h req w = set_case h req w"
    using assms(1) by (auto simp: fullHandler_def)
  have m: "(if Command req = ''set'' then Set
            else if Command req = ''add'' then Add
            else if Command req = ''replace'' then Replace else Set) = mode"
    using assms(1,6) by auto
  have f: "set_case h req w
           = (Ok (),
              if length (Args req) = 5 \<and> Args req ! 4 = ''noreply'' then w2
              else if err = None then Status ''STORED'' w2
              else if err = Some ErrNotStored then Status ''NOT_STORED'' w2
              else if err = Some ErrNotFound then Status ''NOT_FOUND'' w2
              else if err = Some ErrExists then Status ''EXISTS'' w2
              else ServerError (Error (the err)) w2)"
    using assms(2,3,4,5,7,8)
    by (simp add: set_case_def m call_Set_def Let_def)
  show ?thesis
    unfolding s f using assms(8) by (simp add: Status_eq ServerError_eq)
qed


lemma Atoi_minus_one: "Atoi ''-1'' = Inr (- 1)"
  by (simp add: Atoi_def is_digit_def digit_val_def MinInt_def MaxInt_def)

lemma Atoi_letter: "Atoi ''x'' = Inl ErrSyntax"
  by (simp add: Atoi_def is_digit_def)

lemma Atoi_three: "Atoi ''3'' = Inr 3"
  by (simp add: Atoi_def is_digit_def digit_val_def MinInt_def MaxInt_def)

lemma decimal_three: "decimal (Suc (Suc (Suc 0))) = ''3''"
  by code_simp

theorem get_without_key_witness:
  "readRequestLine (start (''gets'' @ eol @ ''get k'' @ eol) ([] :: (string \<times> bytes) list))
     = (Ok \<lparr>Command = ''gets'', Args = []\<rparr>, start (''get k'' @ eol) [])
   \<and> fullHandler ''1.0'' example_store \<lparr>Command = ''gets'', Args = []\<rparr> (start (''get k'' @ eol) [])
     = (Ok (), \<lparr>rd = ''get k'' @ eol, wbuf = [], sent = ''CLIENT_ERROR key required'' @ eol,
                closed = False, st = [], calls = []\<rparr>)
   \<and> run (Suc 1) (fullHandler ''1.0'' example_store) [] (start (''gets'' @ eol @ ''get k'' @ eol) [])
     = run 1 (fullHandler ''1.0'' example_store) [\<lparr>Command = ''gets'', Args = []\<rparr>]
         \<lparr>rd = ''get k'' @ eol, wbuf = [], sent = ''CLIENT_ERROR key required'' @ eol,
          closed = False, st = [], calls = []\<rparr>"
proof -
  have rl: "readRequestLine (start (''gets'' @ eol @ ''get k'' @ eol) ([] :: (string \<times> bytes) list))
     = (Ok \<lparr>Command = ''gets'', Args = []\<rparr>, start (''get k'' @ eol) [])"
    by code_simp
  have c: "Command \<lparr>Command = ''gets'', Args = []\<rparr> = ''get'' \<or> Command \<lparr>Command = ''gets'', Args = []\<rparr> = ''gets''"
    by simp
  have a: "Args \<lparr>Command = ''gets'', Args = []\<rparr> = []" by simp
  show ?thesis
    using rl get_without_key [OF c a, where ver = "''1.0''" and h = example_store
        and w = "start (''get k'' @ eol) []" and c = "start (''gets'' @ eol @ ''get k'' @ eol) []"
        and n = 1 and served = "[]"]
    by (simp add: start_def)
qed

theorem store_command_too_few_args_witness:
  "length (Args \<lparr>Command = ''set'', Args = [''k'', ''noreply'']\<rparr>) < 4
   \<and> fullHandler ''1.0'' example_store \<lparr>Command = ''set'', Args = [''k'', ''noreply'']\<rparr> (start ''abc'' [])
     = (Ok (), \<lparr>rd = ''abc'', wbuf = [], sent = ''CLIENT_ERROR invalid command format'' @ eol,
                closed = False, st = [], calls = []\<rparr>)"
proof -
  have c: "Command \<lparr>Command = ''set'', Args = [''k'', ''noreply'']\<rparr> = ''set''
           \<or> Command \<lparr>Command = ''set'', Args = [''k'', ''noreply'']\<rparr> = ''add''
           \<or> Command \<lparr>Command = ''set'', Args = [''k'', ''noreply'']\<rparr> = ''replace''"
    by simp
  have a: "length (Args \<lparr>Command = ''set'', Args = [''k'', ''noreply'']\<rparr>) < 4" by simp
  show ?thesis
    using a store_command_too_few_args [OF c a, where ver = "''1.0''" and h = example_store
        and w = "start ''abc'' []"]
    by (simp add: start_def)
qed

theorem store_command_bad_length_witness:
  "Atoi ''-1'' = Inr (- 1) \<and> Atoi ''x'' = Inl ErrSyntax
   \<and> readRequestLine (start (''set k 0 0 -1'' @ eol @ ''get k'' @ eol) ([] :: (string \<times> bytes) list))
     = (Ok \<lparr>Command = ''set'', Args = [''k'', ''0'', ''0'', ''-1'']\<rparr>, start (''get k'' @ eol) [])
   \<and> fullHandler ''1.0'' example_store \<lparr>Command = ''set'', Args = [''k'', ''0'', ''0'', ''-1'']\<rparr>
        (start (''get k'' @ eol) [])
     = (Ok (), \<lparr>rd = ''get k'' @ eol, wbuf = [], sent = ''CLIENT_ERROR invalid data length'' @ eol,
                closed = False, st = [], calls = []\<rparr>)
   \<and> run (Suc 1) (fullHandler ''1.0'' example_store) [] (start (''set k 0 0 -1'' @ eol @ ''get k'' @ eol) [])
     = run 1 (fullHandler ''1.0'' example_store) [\<lparr>Command = ''set'', Args = [''k'', ''0'', ''0'', ''-1'']\<rparr>]
         \<lparr>rd = ''get k'' @ eol, wbuf = [], sent = ''CLIENT_ERROR invalid data length'' @ eol,
          closed = False, st = [], calls = []\<rparr>
   \<and> fullHandler ''1.0'' example_store \<lparr>Command = ''add'', Args = [''k'', ''0'', ''0'', ''x'', ''noreply'']\<rparr>
        (start (''get k'' @ eol) [])
     = (Ok (), start (''get k'' @ eol) [])"
proof -
  have rl: "readRequestLine (start (''set k 0 0 -1'' @ eol @ ''get k'' @ eol) ([] :: (string \<times> bytes) list))
     = (Ok \<lparr>Command = ''set'', Args = [''k'', ''0'', ''0'', ''-1'']\<rparr>, start (''get k'' @ eol) [])"
    by code_simp
  have c1: "Command \<lparr>Command = ''set'', Args = [''k'', ''0'', ''0'', ''-1'']\<rparr> = ''set''
           \<or> Command \<lparr>Command = ''set'', Args = [''k'', ''0'', ''0'', ''-1'']\<rparr> = ''add''
           \<or> Command \<lparr>Command = ''set'', Args = [''k'', ''0'', ''0'', ''-1'']\<rparr> = ''replace''"
    by simp
  have l1: "4 \<le> length (Args \<lparr>Command = ''set'', Args = [''k'', ''0'', ''0'', ''-1'']\<rparr>)" by simp
  have p1: "\<not> (\<exists>n. Atoi (Args \<lparr>Command = ''set'', Args = [''k'', ''0'', ''0'', ''-1'']\<rparr> ! 3) = Inr n \<and> 0 \<le> n)"
    by (simp add: Atoi_minus_one numeral_3_eq_3)
  have c2: "Command \<lparr>Command = ''add'', Args = [''k'', ''0'', ''0'', ''x'', ''noreply'']\<rparr> = ''set''
           \<or> Command \<lparr>Command = ''add'', Args = [''k'', ''0'', ''0'', ''x'', ''noreply'']\<rparr> = ''add''
           \<or> Command \<lparr>Command = ''add'', Args = [''k'', ''0'', ''0'', ''x'', ''noreply'']\<rparr> = ''replace''"
    by simp
  have l2: "4 \<le> length (Args \<lparr>Command = ''add'', Args = [''k'', ''0'', ''0'', ''x'', ''noreply'']\<rparr>)" by simp
  have p2: "\<not> (\<exists>n. Atoi (Args \<lparr>Command = ''add'', Args = [''k'', ''0'', ''0'', ''x'', ''noreply'']\<rparr> ! 3) = Inr n \<and> 0 \<le> n)"
    by (simp add: Atoi_letter numeral_3_eq_3)
  show ?thesis
    using rl Atoi_minus_one Atoi_letter
      store_command_bad_length [OF c1 l1 p1, where ver = "''1.0''" and h = example_store
        and w = "start (''get k'' @ eol) []" and c = "start (''set k 0 0 -1'' @ eol @ ''get k'' @ eol) []"
        and n = 1 and served = "[]"]
      store_command_bad_length [OF c2 l2 p2, where ver = "''1.0''" and h = example_store
        and w = "start (''get k'' @ eol) []" and c = "start [] []" and n = 0 and served = "[]"]
    by (simp add: start_def)
qed

theorem get_first_key_only_witness:
  "hGet example_store ''a'' [(''a'', ''xyz'')] = ((''xyz'', None), [(''a'', ''xyz'')])
   \<and> fullHandler ''1.0'' example_store \<lparr>Command = ''get'', Args = [''a'', ''bad'']\<rparr> (start [] [(''a'', ''xyz'')])
     = (Ok (), \<lparr>rd = [], wbuf = [], sent = ''VALUE a 0 3 0'' @ eol @ ''xyz'' @ eol @ ''END'' @ eol,
                closed = False, st = [(''a'', ''xyz'')], calls = [CallGet ''a'']\<rparr>)"
proof -
  have g: "hGet example_store ''a'' (st (start [] [(''a'', ''xyz'')])) = ((''xyz'', None), [(''a'', ''xyz'')])"
    by (simp add: example_store_def start_def)
  have c: "Command \<lparr>Command = ''get'', Args = [''a'', ''bad'']\<rparr> = ''get''" by simp
  have a: "Args \<lparr>Command = ''get'', Args = [''a'', ''bad'']\<rparr> = ''a'' # [''bad'']" by simp
  show ?thesis
    using g get_first_key_only [OF c a g, where ver = "''1.0''"]
    by (simp add: start_def Status_eq Value_eq decimal_three)
qed

theorem store_command_result_witness:
  "Atoi ''3'' = Inr 3
   \<and> ReadBody 3 (start (''xyz'' @ eol @ ''get a'' @ eol) ([] :: (string \<times> bytes) list))
       = (Ok ''xyz'', start (''get a'' @ eol) [])
   \<and> hSet example_store ''a'' ''xyz'' Add [] = (None, [(''a'', ''xyz'')])
   \<and> fullHandler ''1.0'' example_store \<lparr>Command = ''add'', Args = [''a'', ''0'', ''0'', ''3'']\<rparr>
        (start (''xyz'' @ eol @ ''get a'' @ eol) [])
     = (Ok (), \<lparr>rd = ''get a'' @ eol, wbuf = [], sent = ''STORED'' @ eol, closed = False,
                st = [(''a'', ''xyz'')], calls = [CallSet ''a'' ''xyz'' Add]\<rparr>)"
proof -
  have c: "Command \<lparr>Command = ''add'', Args = [''a'', ''0'', ''0'', ''3'']\<rparr> = ''set''
           \<or> Command \<lparr>Command = ''add'', Args = [''a'', ''0'', ''0'', ''3'']\<rparr> = ''add''
           \<or> Command \<lparr>Command = ''add'', Args = [''a'', ''0'', ''0'', ''3'']\<rparr> = ''replace''"
    by simp
  have l: "4 \<le> length (Args \<lparr>Command = ''add'', Args = [''a'', ''0'', ''0'', ''3'']\<rparr>)" by simp
  have p: "Atoi (Args \<lparr>Command = ''add'', Args = [''a'', ''0'', ''0'', ''3'']\<rparr> ! 3) = Inr 3"
    by (simp add: Atoi_three numeral_3_eq_3)
  have z: "(0::int) \<le> 3" by simp
  have b: "ReadBody 3 (start (''xyz'' @ eol @ ''get a'' @ eol) ([] :: (string \<times> bytes) list))
       = (Ok ''xyz'', start (''get a'' @ eol) [])"
    by code_simp
  have m: "Add = (if Command \<lparr>Command = ''add'', Args = [''a'', ''0'', ''0'', ''3'']\<rparr> = ''set'' then Set
                  else if Command \<lparr>Command = ''add'', Args = [''a'', ''0'', ''0'', ''3'']\<rparr> = ''add'' then Add
                  else Replace)"
    by simp
  have s: "hSet example_store (Args \<lparr>Command = ''add'', Args = [''a'', ''0'', ''0'', ''3'']\<rparr> ! 0) ''xyz'' Add
             (st (start (''get a'' @ eol) [])) = (None, [(''a'', ''xyz'')])"
    by (simp add: example_store_def start_def)
  show ?thesis
    using Atoi_three b s store_command_result [OF c l p z b m s refl, where ver = "''1.0''"]
    by (simp add: start_def Status_eq)
qed

subsection \<open>The loop over the keys of \<open>gets\<close>\<close>

lemma get_loop_spec:
  "get_loop h keys w = (b, w') \<Longrightarrow>
     b = (length (takeWhile (\<lambda>r. \<not> hard_error r) (get_results h keys (st w))) = length keys)
     \<and> calls w' = calls w @ map CallGet (take (Suc (length (takeWhile (\<lambda>r. \<not> hard_error r) (get_results h keys (st w))))) keys)
     \<and> st w' = get_states h (take (Suc (length (takeWhile (\<lambda>r. \<not> hard_error r) (get_results h keys (st w))))) keys) (st w)
     \<and> sent w' @ wbuf w' = sent w @ wbuf w
          @ value_blocks (take (length (takeWhile (\<lambda>r. \<not> hard_error r) (get_results h keys (st w)))) (zip keys (get_results h keys (st w))))
          @ (if b then [] else ''SERVER_ERROR '' @ Error (the (snd (get_results h keys (st w) ! length (takeWhile (\<lambda>r. \<not> hard_error r) (get_results h keys (st w)))))) @ eol)
     \<and> (\<not> b \<longrightarrow> wbuf w' = [])
     \<and> rd w' = rd w \<and> closed w' = closed w"
proof (induction keys arbitrary: w b w')
  case Nil
  then show ?case by auto
next
  case (Cons key keys)
  obtain data err s1 where g: "hGet h key (st w) = ((data, err), s1)"
    by (metis surj_pair)
  let ?w1 = "w\<lparr>st := s1, calls := calls w @ [CallGet key]\<rparr>"
  show ?case
  proof (cases "err = Some ErrNotFound")
    case True
    then have "get_loop h keys ?w1 = (b, w')"
      using Cons.prems g by (simp add: call_Get_def)
    from Cons.IH [OF this] show ?thesis
      using g True by (simp add: hard_error_def)
  next
    case nf: False
    show ?thesis
    proof (cases "err = None")
      case True
      then have "get_loop h keys (Value key data ?w1) = (b, w')"
        using Cons.prems g by (simp add: call_Get_def)
      from Cons.IH [OF this] show ?thesis
        using g True by (simp add: hard_error_def Value_eq value_block_def)
    next
      case False
      then have "b = False" "w' = ServerError (Error (the err)) ?w1"
        using Cons.prems g nf by (auto simp: call_Get_def)
      then show ?thesis
        using g False nf by (auto simp: hard_error_def ServerError_eq)
    qed
  qed
qed

lemma length_get_results: "length (get_results h keys s) = length keys"
  by (induction keys arbitrary: s) auto

text \<open>
  C3. A \<open>gets\<close> request with at least one argument. Let \<open>rs\<close> be the results of
  \<open>Get\<close> on the arguments, in order, and \<open>n\<close> the number of results before the first
  hard error (all of them when there is none). The handler calls \<open>Get\<close> on the arguments
  in request order up to and including the one with the first hard error (on all of them
  when there is none), and on nothing else. It writes one \<open>VALUE\<close> block for each of the
  first \<open>n\<close> keys that was found, in request order, and nothing for those that were
  \<open>ErrNotFound\<close>; then, when a hard error occurred, one \<open>SERVER_ERROR\<close> line with its
  message and no \<open>END\<close>, and otherwise \<open>END\<close>. It returns a nil error.
\<close>

theorem gets_all_keys:
  assumes "Command req = ''gets''" and "Args req \<noteq> []"
    and "rs = get_results h (Args req) (st w)"
    and "n = length (takeWhile (\<lambda>r. \<not> hard_error r) rs)"
    and "w' = snd (fullHandler ver h req w)"
  shows "fst (fullHandler ver h req w) = Ok ()
    \<and> calls w' = calls w @ map CallGet (take (Suc n) (Args req))
    \<and> st w' = get_states h (take (Suc n) (Args req)) (st w)
    \<and> sent w' = sent w @ wbuf w @ value_blocks (take n (zip (Args req) rs))
         @ (if n < length (Args req) then ''SERVER_ERROR '' @ Error (the (snd (rs ! n))) @ eol
            else ''END'' @ eol)
    \<and> wbuf w' = []
    \<and> rd w' = rd w"
proof -
  obtain b w1 where gl: "get_loop h (Args req) w = (b, w1)" by (metis surj_pair)
  have nle: "n \<le> length (Args req)"
    using assms(3,4) length_takeWhile_le [of "\<lambda>r. \<not> hard_error r" rs]
    by (simp add: length_get_results)
  have f: "fullHandler ver h req w = (Ok (), if b then Status ''END'' w1 else w1)"
    using assms(1,2) gl by (cases b) (simp_all add: fullHandler_def)
  note sp = get_loop_spec [OF gl, folded assms(3), folded assms(4)]
  show ?thesis
  proof (cases b)
    case True
    then have "n = length (Args req)" using sp by simp
    then show ?thesis
      using True sp f assms(5) by (simp add: Status_eq)
  next
    case False
    then have "n < length (Args req)" using sp nle by simp
    then show ?thesis
      using False sp f assms(5) by auto
  qed
qed


theorem gets_all_keys_witness:
  "get_results example_store [''a'', ''b''] [(''a'', ''xyz'')] = [(''xyz'', None), ([], Some ErrNotFound)]
   \<and> calls (snd (fullHandler ''1.0'' example_store \<lparr>Command = ''gets'', Args = [''a'', ''b'']\<rparr>
                  (start [] [(''a'', ''xyz'')]))) = [CallGet ''a'', CallGet ''b'']
   \<and> sent (snd (fullHandler ''1.0'' example_store \<lparr>Command = ''gets'', Args = [''a'', ''b'']\<rparr>
                  (start [] [(''a'', ''xyz'')]))) = ''VALUE a 0 3 0'' @ eol @ ''xyz'' @ eol @ ''END'' @ eol
   \<and> get_results example_store [''a'', ''bad'', ''a''] [(''a'', ''xyz'')]
       = [(''xyz'', None), ([], Some (Other ''disk failure'')), (''xyz'', None)]
   \<and> calls (snd (fullHandler ''1.0'' example_store \<lparr>Command = ''gets'', Args = [''a'', ''bad'', ''a'']\<rparr>
                  (start [] [(''a'', ''xyz'')]))) = [CallGet ''a'', CallGet ''bad'']
   \<and> sent (snd (fullHandler ''1.0'' example_store \<lparr>Command = ''gets'', Args = [''a'', ''bad'', ''a'']\<rparr>
                  (start [] [(''a'', ''xyz'')])))
       = ''VALUE a 0 3 0'' @ eol @ ''xyz'' @ eol @ ''SERVER_ERROR disk failure'' @ eol"
proof -
  have c1: "Command \<lparr>Command = ''gets'', Args = [''a'', ''b'']\<rparr> = ''gets''" by simp
  have a1: "Args \<lparr>Command = ''gets'', Args = [''a'', ''b'']\<rparr> \<noteq> []" by simp
  have c2: "Command \<lparr>Command = ''gets'', Args = [''a'', ''bad'', ''a'']\<rparr> = ''gets''" by simp
  have a2: "Args \<lparr>Command = ''gets'', Args = [''a'', ''bad'', ''a'']\<rparr> \<noteq> []" by simp
  have r1: "get_results example_store [''a'', ''b''] [(''a'', ''xyz'')] = [(''xyz'', None), ([], Some ErrNotFound)]"
    by (simp add: example_store_def)
  have r2: "get_results example_store [''a'', ''bad'', ''a''] [(''a'', ''xyz'')]
       = [(''xyz'', None), ([], Some (Other ''disk failure'')), (''xyz'', None)]"
    by (simp add: example_store_def)
  show ?thesis
    using r1 r2
      gets_all_keys [OF c1 a1 refl refl refl, where ver = "''1.0''" and h = example_store
        and w = "start [] [(''a'', ''xyz'')]"]
      gets_all_keys [OF c2 a2 refl refl refl, where ver = "''1.0''" and h = example_store
        and w = "start [] [(''a'', ''xyz'')]"]
    by (simp add: start_def hard_error_def value_block_def decimal_three)
qed

subsection \<open>A value stored and read back\<close>

lemma Split_set_line:
  assumes "CHR '' '' \<notin> set key"
  shows "Split (''set '' @ key @ '' 0 0 '' @ decimal n) (CHR '' '') = [''set'', key, ''0'', ''0'', decimal n]"
proof -
  have d: "CHR '' '' \<notin> set (decimal n)" using decimal_no_sep by simp
  have "Split (''set '' @ key @ '' 0 0 '' @ decimal n) (CHR '' '')
        = ''set'' # Split (key @ CHR '' '' # (''0 0 '' @ decimal n)) (CHR '' '')"
    by simp
  also have "Split (key @ CHR '' '' # (''0 0 '' @ decimal n)) (CHR '' '')
        = key # Split (''0 0 '' @ decimal n) (CHR '' '')"
    using assms by (rule Split_cons)
  also have "Split (''0 0 '' @ decimal n) (CHR '' '') = [''0'', ''0'', decimal n]"
    using Split_single [OF d] by simp
  finally show ?thesis by simp
qed

lemma Split_get_line:
  assumes "CHR '' '' \<notin> set key"
  shows "Split (''get '' @ key) (CHR '' '') = [''get'', key]"
  using Split_single [OF assms] by simp

lemma set_valid_step:
  assumes sp: "CHR '' '' \<notin> set key" and nl: "CHR 0x0A \<notin> set key"
    and len: "int (length body) \<le> MaxInt - 2"
    and inp: "rd w = ''set '' @ key @ '' 0 0 '' @ decimal (length body) @ eol @ body @ eol @ rest"
    and st: "hSet h key body Set (st w) = (err, s1)"
  shows "readRequestLine w
           = (Ok \<lparr>Command = ''set'', Args = [key, ''0'', ''0'', decimal (length body)]\<rparr>,
              w\<lparr>rd := body @ eol @ rest\<rparr>)"
    and "fullHandler ver h \<lparr>Command = ''set'', Args = [key, ''0'', ''0'', decimal (length body)]\<rparr>
           (w\<lparr>rd := body @ eol @ rest\<rparr>)
         = (Ok (), (if err = Some ErrNotStored \<or> err = Some ErrNotFound \<or> err = Some ErrExists
                    then Status (Error (the err))
                    else if err \<noteq> None then ServerError (Error (the err))
                    else Status ''STORED'')
                   (w\<lparr>rd := rest, st := s1, calls := calls w @ [CallSet key body Set]\<rparr>))"
proof -
  let ?l = "''set '' @ key @ '' 0 0 '' @ decimal (length body)"
  have r: "rd w = ?l @ eol @ (body @ eol @ rest)" using inp by simp
  have n: "CHR 0x0A \<notin> set ?l" using nl decimal_no_sep [of "length body"] by simp
  show "readRequestLine w
           = (Ok \<lparr>Command = ''set'', Args = [key, ''0'', ''0'', decimal (length body)]\<rparr>,
              w\<lparr>rd := body @ eol @ rest\<rparr>)"
    using readRequestLine_ok [OF r n] Split_set_line [OF sp, of "length body"] by simp
  have a: "Atoi (decimal (length body)) = Inr (int (length body))"
    using len by (intro Atoi_decimal) (simp add: MaxInt_def)
  have b: "ReadBody (int (length body)) (w\<lparr>rd := body @ eol @ rest\<rparr>) = (Ok body, w\<lparr>rd := rest\<rparr>)"
    using readRequestBody_ok [of "w\<lparr>rd := body @ eol @ rest\<rparr>" body rest] len
    by (simp add: ReadBody_def)
  show "fullHandler ver h \<lparr>Command = ''set'', Args = [key, ''0'', ''0'', decimal (length body)]\<rparr>
           (w\<lparr>rd := body @ eol @ rest\<rparr>)
         = (Ok (), (if err = Some ErrNotStored \<or> err = Some ErrNotFound \<or> err = Some ErrExists
                    then Status (Error (the err))
                    else if err \<noteq> None then ServerError (Error (the err))
                    else Status ''STORED'')
                   (w\<lparr>rd := rest, st := s1, calls := calls w @ [CallSet key body Set]\<rparr>))"
    using a b st
    by (simp add: fullHandler_def set_case_def call_Set_def numeral_3_eq_3)
qed

lemma get_single_step:
  assumes sp: "CHR '' '' \<notin> set key" and nl: "CHR 0x0A \<notin> set key"
    and inp: "rd w = ''get '' @ key @ eol @ rest"
    and gt: "hGet h key (st w) = ((data, None), s2)"
  shows "readRequestLine w = (Ok \<lparr>Command = ''get'', Args = [key]\<rparr>, w\<lparr>rd := rest\<rparr>)"
    and "fullHandler ver h \<lparr>Command = ''get'', Args = [key]\<rparr> (w\<lparr>rd := rest\<rparr>)
         = (Ok (), Status ''END'' (Value key data (w\<lparr>rd := rest, st := s2, calls := calls w @ [CallGet key]\<rparr>)))"
proof -
  have r: "rd w = (''get '' @ key) @ eol @ rest" using inp by simp
  have n: "CHR 0x0A \<notin> set (''get '' @ key)" using nl by simp
  show "readRequestLine w = (Ok \<lparr>Command = ''get'', Args = [key]\<rparr>, w\<lparr>rd := rest\<rparr>)"
    using readRequestLine_ok [OF r n] Split_get_line [OF sp] by simp
  show "fullHandler ver h \<lparr>Command = ''get'', Args = [key]\<rparr> (w\<lparr>rd := rest\<rparr>)
         = (Ok (), Status ''END'' (Value key data (w\<lparr>rd := rest, st := s2, calls := calls w @ [CallGet key]\<rparr>)))"
    using gt by (simp add: fullHandler_def call_Get_def)
qed

text \<open>
  C7. The round trip on the wire. The key is a token of a request line (it holds no space
  and no line feed) and the body is short enough for the length of its buffer to be an
  \<open>int\<close>. The store accepts \<open>Set(key, body, Set)\<close> with a nil error and then returns
  the same body from \<open>Get(key)\<close>. On the input \<open>set key 0 0 N\<close> CR LF, the \<open>N\<close> bytes of
  the body, CR LF, \<open>get key\<close> CR LF, two iterations of the loop dispatch exactly these
  two requests, write \<open>STORED\<close> CR LF for the first and \<open>VALUE key 0 N 0\<close> CR LF, the body,
  CR LF, \<open>END\<close> CR LF for the second, and leave the loop at the bytes that follow.
\<close>

theorem set_then_get_round_trip:
  assumes "CHR '' '' \<notin> set key" and "CHR 0x0A \<notin> set key"
    and "int (length body) \<le> MaxInt - 2"
    and "rd w = ''set '' @ key @ '' 0 0 '' @ decimal (length body) @ eol @ body @ eol
                @ ''get '' @ key @ eol @ rest"
    and "hSet h key body Set (st w) = (None, s1)"
    and "hGet h key s1 = ((body, None), s2)"
  shows "run (Suc (Suc n)) (fullHandler ver h) served w
         = run (Suc n) (fullHandler ver h)
             (served @ [\<lparr>Command = ''set'', Args = [key, ''0'', ''0'', decimal (length body)]\<rparr>])
             (w\<lparr>rd := ''get '' @ key @ eol @ rest, wbuf := [],
                sent := sent w @ wbuf w @ ''STORED'' @ eol,
                st := s1, calls := calls w @ [CallSet key body Set]\<rparr>)
    \<and> run (Suc (Suc n)) (fullHandler ver h) served w
         = run n (fullHandler ver h)
             (served @ [\<lparr>Command = ''set'', Args = [key, ''0'', ''0'', decimal (length body)]\<rparr>,
                        \<lparr>Command = ''get'', Args = [key]\<rparr>])
             (w\<lparr>rd := rest, wbuf := [],
                sent := sent w @ wbuf w @ ''STORED'' @ eol
                        @ ''VALUE '' @ key @ '' 0 '' @ decimal (length body) @ '' 0'' @ eol
                        @ body @ eol @ ''END'' @ eol,
                st := s2, calls := calls w @ [CallSet key body Set, CallGet key]\<rparr>)"
proof -
  let ?w1 = "w\<lparr>rd := ''get '' @ key @ eol @ rest, wbuf := [],
                sent := sent w @ wbuf w @ ''STORED'' @ eol,
                st := s1, calls := calls w @ [CallSet key body Set]\<rparr>"
  let ?sreq = "\<lparr>Command = ''set'', Args = [key, ''0'', ''0'', decimal (length body)]\<rparr>"
  have i1: "rd w = ''set '' @ key @ '' 0 0 '' @ decimal (length body) @ eol @ body @ eol
                @ (''get '' @ key @ eol @ rest)"
    using assms(4) by simp
  note s = set_valid_step(1) [OF assms(1,2,3) i1 assms(5)]
    set_valid_step(2) [OF assms(1,2,3) i1 assms(5), where ver = ver]
  have h1: "fullHandler ver h ?sreq (w\<lparr>rd := body @ eol @ (''get '' @ key @ eol @ rest)\<rparr>) = (Ok (), ?w1)"
    using s(2) by (simp add: Status_eq)
  have ne1: "Command ?sreq \<noteq> []" by simp
  have step1: "run (Suc (Suc n)) (fullHandler ver h) served w
                 = run (Suc n) (fullHandler ver h) (served @ [?sreq]) ?w1"
    by (rule run_continue [where handler = "fullHandler ver h", OF s(1) ne1 h1])
  have i2: "rd ?w1 = ''get '' @ key @ eol @ rest" by simp
  have g2: "hGet h key (st ?w1) = ((body, None), s2)" using assms(6) by simp
  note g = get_single_step(1) [OF assms(1,2) i2 g2]
    get_single_step(2) [OF assms(1,2) i2 g2, where ver = ver]
  let ?greq = "\<lparr>Command = ''get'', Args = [key]\<rparr>"
  let ?w2 = "w\<lparr>rd := rest, wbuf := [],
                sent := sent w @ wbuf w @ ''STORED'' @ eol
                        @ ''VALUE '' @ key @ '' 0 '' @ decimal (length body) @ '' 0'' @ eol
                        @ body @ eol @ ''END'' @ eol,
                st := s2, calls := calls w @ [CallSet key body Set, CallGet key]\<rparr>"
  have step2: "run (Suc n) (fullHandler ver h) (served @ [?sreq]) ?w1
                 = run n (fullHandler ver h) (served @ [?sreq, ?greq]) ?w2"
  proof -
    have h2: "fullHandler ver h ?greq (?w1\<lparr>rd := rest\<rparr>) = (Ok (), ?w2)"
      using g(2) by (simp add: Status_eq Value_eq)
    have ne2: "Command ?greq \<noteq> []" by simp
    have "run (Suc n) (fullHandler ver h) (served @ [?sreq]) ?w1
            = run n (fullHandler ver h) ((served @ [?sreq]) @ [?greq]) ?w2"
      by (rule run_continue [where handler = "fullHandler ver h", OF g(1) ne2 h2])
    then show ?thesis by simp
  qed
  show ?thesis using step1 step2 by (simp only: simp_thms)
qed


theorem set_then_get_round_trip_witness:
  "CHR '' '' \<notin> set ''k'' \<and> CHR 0x0A \<notin> set ''k'' \<and> int (length ''abc'') \<le> MaxInt - 2
   \<and> hSet example_store ''k'' ''abc'' Set [] = (None, [(''k'', ''abc'')])
   \<and> hGet example_store ''k'' [(''k'', ''abc'')] = ((''abc'', None), [(''k'', ''abc'')])
   \<and> run (Suc (Suc (Suc 0))) (fullHandler ''1.0'' example_store) []
         (start (''set k 0 0 3'' @ eol @ ''abc'' @ eol @ ''get k'' @ eol) [])
     = ([\<lparr>Command = ''set'', Args = [''k'', ''0'', ''0'', ''3'']\<rparr>, \<lparr>Command = ''get'', Args = [''k'']\<rparr>],
        Closed \<lparr>rd = [], wbuf = [],
                sent = ''STORED'' @ eol @ ''VALUE k 0 3 0'' @ eol @ ''abc'' @ eol @ ''END'' @ eol,
                closed = True, st = [(''k'', ''abc'')],
                calls = [CallSet ''k'' ''abc'' Set, CallGet ''k'']\<rparr>)"
proof -
  let ?w = "start (''set k 0 0 3'' @ eol @ ''abc'' @ eol @ ''get k'' @ eol) ([] :: (string \<times> bytes) list)"
  have k1: "CHR '' '' \<notin> set ''k''" by simp
  have k2: "CHR 0x0A \<notin> set ''k''" by simp
  have l: "int (length ''abc'') \<le> MaxInt - 2" by (simp add: MaxInt_def)
  have i: "rd ?w = ''set '' @ ''k'' @ '' 0 0 '' @ decimal (length ''abc'') @ eol @ ''abc'' @ eol
                  @ ''get '' @ ''k'' @ eol @ []"
    by (simp add: start_def decimal_three)
  have s: "hSet example_store ''k'' ''abc'' Set (st ?w) = (None, [(''k'', ''abc'')])"
    by (simp add: example_store_def start_def)
  have g: "hGet example_store ''k'' [(''k'', ''abc'')] = ((''abc'', None), [(''k'', ''abc'')])"
    by (simp add: example_store_def)
  have e: "rd c = [] \<Longrightarrow> run (Suc 0) handler served c = (served, Closed (Close (c\<lparr>rd := []\<rparr>)))"
    for handler :: "'x Handler" and served c
    by (simp add: readRequestLine_def ReadString_def)
  show ?thesis
    using k1 k2 l s g
      set_then_get_round_trip [OF k1 k2 l i s g, where ver = "''1.0''" and n = "Suc 0" and served = "[]",
        THEN conjunct2]
    by (simp add: e start_def decimal_three Close_def MaxInt_def del: run.simps)
qed

subsection \<open>Panics of the body reader\<close>

lemma readRequestBody_no_panic:
  assumes "0 \<le> len" and "len \<le> MaxInt - 2"
  shows "fst (readRequestBody len c) \<noteq> Panic p"
proof -
  have w: "wrap_int (len + int (length eol)) = len + 2"
    using assms by (simp add: wrap_int_def MaxInt_def eol_def)
  show ?thesis
    using assms(1)
    by (auto simp: readRequestBody_def w ReadFull_def Let_def split: if_splits)
qed

lemma readRequestBody_overflow:
  assumes "MaxInt - 2 < len" and "len \<le> MaxInt"
  shows "readRequestBody len c = (Panic MakesliceLenOutOfRange, c)"
proof -
  have "len = MaxInt - 1 \<or> len = MaxInt" using assms by arith
  then have "wrap_int (len + int (length eol)) < 0"
    by (auto simp: wrap_int_def MaxInt_def eol_def)
  then show ?thesis by (simp add: readRequestBody_def Let_def)
qed

lemma get_loop_total: "\<exists>b w'. get_loop h keys w = (b, w')"
  by (metis surj_pair)

lemma fullHandler_panics_only_on_overflow:
  assumes "fullHandler ver h req w = (Panic p, w')"
  shows "(Command req = ''set'' \<or> Command req = ''add'' \<or> Command req = ''replace'')
         \<and> 4 \<le> length (Args req)
         \<and> (\<exists>n. Atoi (Args req ! 3) = Inr n \<and> MaxInt - 2 < n)
         \<and> p = MakesliceLenOutOfRange"
proof -
  have c: "Command req = ''set'' \<or> Command req = ''add'' \<or> Command req = ''replace''"
    using assms
    by (auto simp: fullHandler_def del_case_def Let_def split: if_splits prod.splits bool.splits)
  then have sc: "set_case h req w = (Panic p, w')"
    using assms by (auto simp: fullHandler_def)
  have l: "4 \<le> length (Args req)"
    using sc by (auto simp: set_case_def split: if_splits)
  obtain n where a: "Atoi (Args req ! 3) = Inr n" and nn: "0 \<le> n"
    using sc l by (auto simp: set_case_def Let_def split: if_splits sum.splits)
  have rb: "readRequestBody n w = (Panic p, w')"
    using sc l a nn
    by (auto simp: set_case_def Let_def ReadBody_def split: if_splits prod.splits res.splits)
  have big: "MaxInt - 2 < n"
    using readRequestBody_no_panic [OF nn, of w p] rb by force
  have "n \<le> MaxInt"
    using a by (auto simp: Atoi_def Let_def split: if_splits)
  from readRequestBody_overflow [OF big this, of w] rb have "p = MakesliceLenOutOfRange" by simp
  then show ?thesis using c l a big by simp
qed

lemma Atoi_MaxInt: "Atoi ''9223372036854775807'' = Inr MaxInt"
  by (simp add: Atoi_def is_digit_def digit_val_def MinInt_def MaxInt_def)

text \<open>
  C10. The claim is that \<open>readRequestBody\<close> cannot panic for the lengths the dispatcher
  passes, because they are not negative. A length that is not negative and at most
  \<open>MaxInt - 2\<close> indeed never panics (\<open>readRequestBody_no_panic\<close>), and the dispatcher
  panics for no other reason (\<open>fullHandler_panics_only_on_overflow\<close>). But the length
  \<open>9223372036854775807\<close> is accepted by \<open>Atoi\<close> and is not negative, \<open>length+len(eol)\<close>
  wraps around to a negative \<open>int\<close>, and \<open>make\<close> panics: the request line
  \<open>set k 0 0 9223372036854775807\<close> takes the panic path of \<open>readRequestBody\<close> through
  the dispatcher, and the loop is left by the panic.
\<close>

theorem body_length_overflow_panics:
  "Atoi ''9223372036854775807'' = Inr MaxInt
   \<and> readRequestBody MaxInt w = (Panic MakesliceLenOutOfRange, w)
   \<and> fullHandler ver h \<lparr>Command = ''set'', Args = [key, flags, exptime, ''9223372036854775807'']\<rparr> w
       = (Panic MakesliceLenOutOfRange, w)
   \<and> run (Suc n) (fullHandler ver h) served (w\<lparr>rd := ''set k 0 0 9223372036854775807'' @ eol @ rest\<rparr>)
       = (served @ [\<lparr>Command = ''set'', Args = [''k'', ''0'', ''0'', ''9223372036854775807'']\<rparr>],
          Crashed MakesliceLenOutOfRange (Close (w\<lparr>rd := rest\<rparr>)))"
proof -
  have rb: "readRequestBody MaxInt c = (Panic MakesliceLenOutOfRange, c)" for c :: "'a world"
    by (rule readRequestBody_overflow) (simp_all add: MaxInt_def)
  have nn: "0 \<le> MaxInt" by (simp add: MaxInt_def)
  have fh: "fullHandler ver h \<lparr>Command = ''set'', Args = [k', f', e', ''9223372036854775807'']\<rparr> c
       = (Panic MakesliceLenOutOfRange, c)" for k' f' e' and c :: "'a world"
    using rb [of c] nn
    by (simp add: fullHandler_def set_case_def Atoi_MaxInt ReadBody_def numeral_3_eq_3)
  have r: "rd (w\<lparr>rd := ''set k 0 0 9223372036854775807'' @ eol @ rest\<rparr>)
           = ''set k 0 0 9223372036854775807'' @ eol @ rest"
    by simp
  have n: "CHR 0x0A \<notin> set ''set k 0 0 9223372036854775807''" by simp
  have rl: "readRequestLine (w\<lparr>rd := ''set k 0 0 9223372036854775807'' @ eol @ rest\<rparr>)
        = (Ok \<lparr>Command = ''set'', Args = [''k'', ''0'', ''0'', ''9223372036854775807'']\<rparr>, w\<lparr>rd := rest\<rparr>)"
    using readRequestLine_ok [OF r n] by simp
  have "run (Suc n) (fullHandler ver h) served (w\<lparr>rd := ''set k 0 0 9223372036854775807'' @ eol @ rest\<rparr>)
       = (served @ [\<lparr>Command = ''set'', Args = [''k'', ''0'', ''0'', ''9223372036854775807'']\<rparr>],
          Crashed MakesliceLenOutOfRange (Close (w\<lparr>rd := rest\<rparr>)))"
    using rl fh [of "''k''" "''0''" "''0''" "w\<lparr>rd := rest\<rparr>"] by simp
  then show ?thesis using rb [of w] fh [of key flags exptime w] Atoi_MaxInt by simp
qed

theorem body_length_overflow_panics_witness:
  "run (Suc 0) (fullHandler ''1.0'' example_store) []
      (start (''set k 0 0 9223372036854775807'' @ eol @ ''get k'' @ eol) [(''k'', ''abc'')])
     = ([\<lparr>Command = ''set'', Args = [''k'', ''0'', ''0'', ''9223372036854775807'']\<rparr>],
        Crashed MakesliceLenOutOfRange
          \<lparr>rd = ''get k'' @ eol, wbuf = [], sent = [], closed = True,
           st = [(''k'', ''abc'')], calls = []\<rparr>)"
  using body_length_overflow_panics [where ver = "''1.0''" and h = example_store and n = 0
      and served = "[]" and w = "start [] [(''k'', ''abc'')]" and rest = "''get k'' @ eol"
      and key = "''k''" and flags = "''0''" and exptime = "''0''"]
  by (simp add: start_def Close_def del: run.simps)

end
